theory Spec2Isabelle
  imports Complex_Main "HOL-Library.Multiset" "HOL-Library.Word"
begin

section \<open>Spectral comparison of graph pairs (isomorfismo.ipynb)\<close>

text \<open>
  The notebook derives four matrices from an adjacency matrix, reduces each to a sorted
  list of eigenvalue real parts and compares the lists of two graphs with
  \<^verbatim>\<open>np.allclose\<close>. The embedding below follows the Python functions one by one. The
  numpy and networkx operations they call are written out as far as the functions depend
  on them: element types and their arithmetic, array shapes, broadcasting, the shape
  checks of \<^verbatim>\<open>@\<close> and of \<^verbatim>\<open>np.linalg.eigvals\<close>, and the exceptions these raise.

  Four library routines whose results the notebook does not determine are parameters
  of the model: the float64 row sum behind \<^verbatim>\<open>A.sum(axis=1)\<close> (numpy adds pairwise
  in blocks), the inner product BLAS computes for one entry of a float64 \<^verbatim>\<open>@\<close>, the
  LAPACK iteration behind \<^verbatim>\<open>np.linalg.eigvals\<close>, and the line graph of networkx,
  whose node order is that of a hash set.
\<close>

subsection \<open>Exceptions\<close>

datatype error = ValueError | LinAlgError | NetworkXError

definition ebind :: "error + 'a \<Rightarrow> ('a \<Rightarrow> error + 'b) \<Rightarrow> error + 'b" where
  "ebind r f = (case r of Inl e \<Rightarrow> Inl e | Inr v \<Rightarrow> f v)"

subsection \<open>float64\<close>

text \<open>
  A float64 is a finite value, an infinity or NaN. A finite value is kept as the real
  number it denotes; the doubles are the reals \<open>m * 2^e\<close> with \<open>|m| \<le> 2^53\<close> and
  \<open>e \<ge> -1074\<close> below \<open>2^1024\<close>. The sign of zero is not kept: all functions of the
  notebook treat the two zeros alike, apart from the sign of \<^verbatim>\<open>1 / 0\<close>, which the
  \<^verbatim>\<open>isinf\<close> mask removes.
\<close>

datatype npfloat = Fin real | PInf | NInf | NaN

text \<open>
  The exponent of the unit in the last place of \<open>x\<close>: the largest \<open>e\<close> from \<open>-1073\<close> to
  \<open>972\<close> with \<open>2^(e + 52) \<le> |x|\<close>, and \<open>-1074\<close> for the subnormal range.
\<close>

fun ulp_from :: "nat \<Rightarrow> real \<Rightarrow> int" where
  "ulp_from 0 x = - 1074"
| "ulp_from (Suc k) x =
     (if 2 powi (int k - 1021) \<le> \<bar>x\<bar> then int k - 1073 else ulp_from k x)"

definition ulp_exp :: "real \<Rightarrow> int" where
  "ulp_exp x = ulp_from 2046 x"

text \<open>Rounding to the nearest integer, a tie going to the even one.\<close>

definition half_even :: "real \<Rightarrow> int" where
  "half_even m =
     (let f = \<lfloor>m\<rfloor>
      in if m - of_int f < 1 / 2 then f
         else if 1 / 2 < m - of_int f then f + 1
         else if even f then f else f + 1)"

text \<open>
  IEEE 754 rounding of an exact result to float64, round-to-nearest-even: the nearest
  multiple of the unit in the last place, or an infinity when that reaches \<open>2^1024\<close>.
\<close>

definition rnd :: "real \<Rightarrow> real" where
  "rnd x = of_int (half_even (x / 2 powi ulp_exp x)) * 2 powi ulp_exp x"

definition round64 :: "real \<Rightarrow> npfloat" where
  "round64 x =
     (if 2 ^ 1024 \<le> \<bar>rnd x\<bar> then (if 0 < x then PInf else NInf) else Fin (rnd x))"

fun fl_neg :: "npfloat \<Rightarrow> npfloat" where
  "fl_neg (Fin a) = Fin (- a)"
| "fl_neg PInf = NInf"
| "fl_neg NInf = PInf"
| "fl_neg NaN = NaN"

fun fl_abs :: "npfloat \<Rightarrow> npfloat" where
  "fl_abs (Fin a) = Fin \<bar>a\<bar>"
| "fl_abs PInf = PInf"
| "fl_abs NInf = PInf"
| "fl_abs NaN = NaN"

fun fl_add :: "npfloat \<Rightarrow> npfloat \<Rightarrow> npfloat" where
  "fl_add (Fin a) (Fin b) = round64 (a + b)"
| "fl_add NaN y = NaN"
| "fl_add x NaN = NaN"
| "fl_add PInf NInf = NaN"
| "fl_add NInf PInf = NaN"
| "fl_add PInf y = PInf"
| "fl_add x PInf = PInf"
| "fl_add NInf y = NInf"
| "fl_add x NInf = NInf"

definition fl_sub :: "npfloat \<Rightarrow> npfloat \<Rightarrow> npfloat" where
  "fl_sub x y = fl_add x (fl_neg y)"

fun inf_times :: "bool \<Rightarrow> npfloat \<Rightarrow> npfloat" where
  "inf_times pos (Fin b) = (if b = 0 then NaN else if (0 < b) = pos then PInf else NInf)"
| "inf_times pos PInf = (if pos then PInf else NInf)"
| "inf_times pos NInf = (if pos then NInf else PInf)"
| "inf_times pos NaN = NaN"

fun fl_mul :: "npfloat \<Rightarrow> npfloat \<Rightarrow> npfloat" where
  "fl_mul (Fin a) (Fin b) = round64 (a * b)"
| "fl_mul PInf y = inf_times True y"
| "fl_mul NInf y = inf_times False y"
| "fl_mul x PInf = inf_times True x"
| "fl_mul x NInf = inf_times False x"
| "fl_mul NaN y = NaN"
| "fl_mul x NaN = NaN"

text \<open>\<^verbatim>\<open>x <= y\<close>: false as soon as one side is NaN.\<close>

fun fl_le :: "npfloat \<Rightarrow> npfloat \<Rightarrow> bool" where
  "fl_le (Fin a) (Fin b) = (a \<le> b)"
| "fl_le NaN y = False"
| "fl_le x NaN = False"
| "fl_le NInf y = True"
| "fl_le x PInf = True"
| "fl_le PInf y = False"
| "fl_le x NInf = False"

text \<open>\<^verbatim>\<open>np.sqrt\<close>: a negative argument gives NaN (a warning, not an exception).\<close>

fun np_sqrt :: "npfloat \<Rightarrow> npfloat" where
  "np_sqrt (Fin a) = (if a < 0 then NaN else round64 (sqrt a))"
| "np_sqrt PInf = PInf"
| "np_sqrt NInf = NaN"
| "np_sqrt NaN = NaN"

text \<open>
  \<^verbatim>\<open>1 / x\<close> under \<^verbatim>\<open>np.errstate(divide="ignore")\<close>: division by zero gives an
  infinity and raises nothing.
\<close>

fun fl_recip :: "npfloat \<Rightarrow> npfloat" where
  "fl_recip (Fin a) = (if a = 0 then PInf else round64 (1 / a))"
| "fl_recip PInf = Fin 0"
| "fl_recip NInf = Fin 0"
| "fl_recip NaN = NaN"

fun np_isinf :: "npfloat \<Rightarrow> bool" where
  "np_isinf PInf = True"
| "np_isinf NInf = True"
| "np_isinf x = False"


subsection \<open>int64 and array elements\<close>

text \<open>
  The arrays of the notebook are written with integer literals and have dtype int64;
  numpy adds and subtracts them modulo \<open>2^64\<close>. An array of the model holds elements of
  one dtype, all \<open>I\<close> or all \<open>F\<close>.
\<close>

type_synonym int64 = "64 word"

datatype elem = I int64 | F npfloat

text \<open>The conversion of an int64 to float64 rounds to the nearest double.\<close>

definition to_f64 :: "int64 \<Rightarrow> npfloat" where
  "to_f64 w = round64 (of_int (sint w))"

fun as_f64 :: "elem \<Rightarrow> npfloat" where
  "as_f64 (I w) = to_f64 w"
| "as_f64 (F x) = x"

fun is_int :: "elem \<Rightarrow> bool" where
  "is_int (I w) = True"
| "is_int (F x) = False"

text \<open>Element-wise \<^verbatim>\<open>+\<close> and \<^verbatim>\<open>-\<close>; an int64 meeting a float64 is converted first.\<close>

fun el_add :: "elem \<Rightarrow> elem \<Rightarrow> elem" where
  "el_add (I a) (I b) = I (a + b)"
| "el_add x y = F (fl_add (as_f64 x) (as_f64 y))"

fun el_sub :: "elem \<Rightarrow> elem \<Rightarrow> elem" where
  "el_sub (I a) (I b) = I (a - b)"
| "el_sub x y = F (fl_sub (as_f64 x) (as_f64 y))"

fun nonzero :: "elem \<Rightarrow> bool" where
  "nonzero (I w) = (w \<noteq> 0)"
| "nonzero (F x) = (x \<noteq> Fin 0)"

fun mask_inf :: "elem \<Rightarrow> elem" where
  "mask_inf (I w) = I w"
| "mask_inf (F x) = (if np_isinf x then F (Fin 0) else F x)"

subsection \<open>Two-dimensional arrays\<close>

text \<open>
  A 2-D array is the list of its rows, all of one length; \<open>[]\<close> is the array of shape
  \<open>(0, 0)\<close>. The functions below read the shape as numpy does, from the array itself.
\<close>

type_synonym matrix = "elem list list"

definition nrows :: "'a list list \<Rightarrow> nat" where
  "nrows A = length A"

definition ncols :: "'a list list \<Rightarrow> nat" where
  "ncols A = (case A of [] \<Rightarrow> 0 | r # rs \<Rightarrow> length r)"

definition rect :: "'a list list \<Rightarrow> bool" where
  "rect A = list_all (\<lambda>r. length r = ncols A) A"

definition square :: "'a list list \<Rightarrow> bool" where
  "square A = (rect A \<and> nrows A = ncols A)"

definition tabulate2 :: "nat \<Rightarrow> nat \<Rightarrow> (nat \<Rightarrow> nat \<Rightarrow> 'a) \<Rightarrow> 'a list list" where
  "tabulate2 m n f = map (\<lambda>i. map (\<lambda>j. f i j) [0..<n]) [0..<m]"

text \<open>A float64 array with the given finite entries, and an int64 array.\<close>

definition emb :: "real list list \<Rightarrow> matrix" where
  "emb R = map (map (\<lambda>a. F (Fin a))) R"

definition iarr :: "int list list \<Rightarrow> matrix" where
  "iarr K = map (map (\<lambda>k. I (of_int k))) K"

text \<open>Broadcasting of one axis: extents agree, or one of them is 1 and is stretched.\<close>

definition bcast_ok :: "nat \<Rightarrow> nat \<Rightarrow> bool" where
  "bcast_ok m n = (m = n \<or> m = 1 \<or> n = 1)"

definition bcast_dim :: "nat \<Rightarrow> nat \<Rightarrow> nat" where
  "bcast_dim m n = (if m = 1 then n else m)"

definition bidx :: "nat \<Rightarrow> nat \<Rightarrow> nat" where
  "bidx m i = (if m = 1 then 0 else i)"

definition broadcast1 :: "('a \<Rightarrow> 'b \<Rightarrow> 'c) \<Rightarrow> 'a list \<Rightarrow> 'b list \<Rightarrow> error + 'c list" where
  "broadcast1 f xs ys =
     (if bcast_ok (length xs) (length ys)
      then Inr (map (\<lambda>i. f (xs ! bidx (length xs) i) (ys ! bidx (length ys) i))
                 [0..<bcast_dim (length xs) (length ys)])
      else Inl ValueError)"

definition broadcast2 ::
  "('a \<Rightarrow> 'b \<Rightarrow> 'c) \<Rightarrow> 'a list list \<Rightarrow> 'b list list \<Rightarrow> error + 'c list list" where
  "broadcast2 f X Y =
     (if bcast_ok (nrows X) (nrows Y) \<and> bcast_ok (ncols X) (ncols Y)
      then Inr (tabulate2 (bcast_dim (nrows X) (nrows Y)) (bcast_dim (ncols X) (ncols Y))
                  (\<lambda>i j. f (X ! bidx (nrows X) i ! bidx (ncols X) j)
                           (Y ! bidx (nrows Y) i ! bidx (ncols Y) j)))
      else Inl ValueError)"

text \<open>
  \<^verbatim>\<open>A.sum(axis=1)\<close>: the vector of row sums. An int64 row is added modulo \<open>2^64\<close>,
  where the order does not matter; a float64 row is added by the library routine \<open>fsum\<close>.
\<close>

type_synonym rowsum = "npfloat list \<Rightarrow> npfloat"

definition np_sum :: "rowsum \<Rightarrow> elem list \<Rightarrow> elem" where
  "np_sum fsum row =
     (if list_all is_int row then foldr el_add row (I 0) else F (fsum (map as_f64 row)))"

definition np_sum_axis1 :: "rowsum \<Rightarrow> matrix \<Rightarrow> elem list" where
  "np_sum_axis1 fsum A = map (np_sum fsum) A"

text \<open>
  \<^verbatim>\<open>np.diag(v)\<close> of a vector: the square matrix with \<open>v\<close> on the diagonal and the
  zero of the vector's dtype elsewhere.
\<close>

definition zero_of :: "elem list \<Rightarrow> elem" where
  "zero_of v = (if list_all is_int v then I 0 else F (Fin 0))"

definition np_diag :: "elem list \<Rightarrow> matrix" where
  "np_diag v = tabulate2 (length v) (length v) (\<lambda>i j. if i = j then v ! i else zero_of v)"

text \<open>
  \<^verbatim>\<open>X @ Y\<close>: the inner extents must agree, otherwise ValueError. At both uses in the
  notebook one operand is float64, so an int64 operand is converted and the product is
  the float64 one, whose entries are the inner products \<open>fdot\<close> of BLAS.
\<close>

type_synonym inner = "npfloat list \<Rightarrow> npfloat list \<Rightarrow> npfloat"

definition column :: "matrix \<Rightarrow> nat \<Rightarrow> elem list" where
  "column Y j = map (\<lambda>k. Y ! k ! j) [0..<nrows Y]"

definition mm :: "inner \<Rightarrow> matrix \<Rightarrow> matrix \<Rightarrow> matrix" where
  "mm fdot X Y =
     tabulate2 (nrows X) (ncols Y)
       (\<lambda>i j. F (fdot (map as_f64 (X ! i)) (map as_f64 (column Y j))))"

definition matmul :: "inner \<Rightarrow> matrix \<Rightarrow> matrix \<Rightarrow> error + matrix" where
  "matmul fdot X Y = (if ncols X = nrows Y then Inr (mm fdot X Y) else Inl ValueError)"

subsection \<open>The notebook's functions\<close>

text \<open>
  \<^verbatim>\<open>to_adj\<close> converts a networkx graph to its array and passes anything else through
  \<^verbatim>\<open>np.asarray\<close>. Every call in the notebook passes an array, the case modelled here.
\<close>

definition to_adj :: "matrix \<Rightarrow> matrix" where
  "to_adj M = M"

definition laplacian :: "rowsum \<Rightarrow> matrix \<Rightarrow> error + matrix" where
  "laplacian fsum A0 =
     (let A = to_adj A0;
          D = np_diag (np_sum_axis1 fsum A)
      in broadcast2 el_sub D A)"

definition signless_laplacian :: "rowsum \<Rightarrow> matrix \<Rightarrow> error + matrix" where
  "signless_laplacian fsum A0 =
     (let A = to_adj A0;
          D = np_diag (np_sum_axis1 fsum A)
      in broadcast2 el_add D A)"

definition zero_infs :: "matrix \<Rightarrow> matrix" where
  \<comment> \<open>\<^verbatim>\<open>M[np.isinf(M)] = 0\<close>\<close>
  "zero_infs M = map (map mask_inf) M"

definition inv_sqrt :: "elem \<Rightarrow> elem" where
  \<comment> \<open>one entry of \<^verbatim>\<open>1 / np.sqrt(v)\<close>\<close>
  "inv_sqrt d = F (fl_recip (np_sqrt (as_f64 d)))"

definition d_inv_sqrt :: "rowsum \<Rightarrow> matrix \<Rightarrow> matrix" where
  \<comment> \<open>\<^verbatim>\<open>D_inv_sqrt\<close> after the mask\<close>
  "d_inv_sqrt fsum A = zero_infs (np_diag (map inv_sqrt (np_sum_axis1 fsum A)))"

definition normalized_laplacian :: "rowsum \<Rightarrow> inner \<Rightarrow> matrix \<Rightarrow> error + matrix" where
  "normalized_laplacian fsum fdot A0 =
     (let A = to_adj A0;
          D = np_diag (np_sum_axis1 fsum A);
          D_inv_sqrt = d_inv_sqrt fsum A
      in ebind (laplacian fsum A) (\<lambda>L.
         ebind (matmul fdot D_inv_sqrt L) (\<lambda>X.
         matmul fdot X D_inv_sqrt)))"

subsection \<open>Eigenvalues\<close>

text \<open>
  \<^verbatim>\<open>np.linalg.eigvals\<close> checks that the array is square and, converted to float64,
  that every entry is finite (LinAlgError otherwise), hands the matrix to LAPACK and
  returns a vector whose length is the matrix dimension; LinAlgError again when the
  iteration does not converge. The LAPACK routine is the parameter \<open>geev\<close>: for a real
  matrix it gives the eigenvalue stored at each index, or \<open>None\<close> when it does not
  converge.
\<close>

type_synonym kernel = "real list list \<Rightarrow> (nat \<Rightarrow> complex) option"

definition fin_opt :: "elem \<Rightarrow> real option" where
  "fin_opt x = (case as_f64 x of Fin a \<Rightarrow> Some a | PInf \<Rightarrow> None | NInf \<Rightarrow> None | NaN \<Rightarrow> None)"

definition finite_matrix :: "matrix \<Rightarrow> real list list option" where
  "finite_matrix M = those (map (\<lambda>r. those (map fin_opt r)) M)"

definition np_linalg_eigvals :: "kernel \<Rightarrow> matrix \<Rightarrow> error + complex list" where
  "np_linalg_eigvals geev M =
     (if nrows M \<noteq> ncols M then Inl LinAlgError
      else case finite_matrix M of
             None \<Rightarrow> Inl LinAlgError
           | Some R \<Rightarrow> (case geev R of
                          None \<Rightarrow> Inl LinAlgError
                        | Some w \<Rightarrow> Inr (map w [0..<nrows M])))"

definition sorted_eigvals :: "kernel \<Rightarrow> matrix \<Rightarrow> error + real list" where
  "sorted_eigvals geev A =
     ebind (np_linalg_eigvals geev (to_adj A)) (\<lambda>w. Inr (sort (map Re w)))"

subsection \<open>Closeness of spectra\<close>

text \<open>
  The defaults of \<^verbatim>\<open>np.allclose\<close> are the doubles nearest to \<open>1e-5\<close> and \<open>1e-8\<close>. The
  test of one pair is \<^verbatim>\<open>abs(a - b) <= atol + rtol * abs(b)\<close>, every operation
  in float64. A spectrum holds finite values.
\<close>

definition rtol :: real where
  "rtol = 5902958103587057 / 2 ^ 69"

definition atol :: real where
  "atol = 3022314549036573 / 2 ^ 78"

definition isclose :: "real \<Rightarrow> real \<Rightarrow> bool" where
  "isclose a b =
     fl_le (fl_abs (fl_sub (Fin a) (Fin b)))
           (fl_add (Fin atol) (fl_mul (Fin rtol) (fl_abs (Fin b))))"

text \<open>\<^verbatim>\<open>np.allclose(s1, s2)\<close>: broadcast, compare element by element, take the conjunction.\<close>

definition allclose :: "real list \<Rightarrow> real list \<Rightarrow> error + bool" where
  "allclose s1 s2 = ebind (broadcast1 isclose s1 s2) (\<lambda>bs. Inr (list_all id bs))"

subsection \<open>The line graph\<close>

text \<open>
  \<^verbatim>\<open>nx.to_numpy_array(nx.line_graph(nx.from_numpy_array(A)))\<close> is library code. It
  raises NetworkXError unless the array is square; \<^verbatim>\<open>from_numpy_array\<close> joins \<open>i\<close> and
  \<open>j\<close> by an undirected edge when either entry between them is nonzero; the line graph
  has one node per edge, two of them adjacent when they share an endpoint, and its array
  is float64 and holds 1 for adjacent nodes and 0 elsewhere. The order of the nodes of
  the line graph is that in which networkx iterates over a Python set of edges, which
  nothing in the notebook determines. The routine is therefore a parameter \<open>lgraph\<close> of
  the report; \<open>line_graph_adj\<close> below is the instance that lists the edges in
  lexicographic order.
\<close>

type_synonym linegraph = "matrix \<Rightarrow> error + matrix"

definition nx_edges :: "matrix \<Rightarrow> (nat \<times> nat) list" where
  "nx_edges A =
     concat (map (\<lambda>i. map (\<lambda>j. (i, j))
                        (filter (\<lambda>j. nonzero (A ! i ! j) \<or> nonzero (A ! j ! i)) [i..<nrows A]))
                 [0..<nrows A])"

definition share :: "nat \<times> nat \<Rightarrow> nat \<times> nat \<Rightarrow> bool" where
  "share e f = (fst e = fst f \<or> fst e = snd f \<or> snd e = fst f \<or> snd e = snd f)"

definition line_graph_adj :: linegraph where
  "line_graph_adj A =
     (if nrows A \<noteq> ncols A then Inl NetworkXError
      else let es = nx_edges A
           in Inr (map (\<lambda>e. map (\<lambda>f. if e \<noteq> f \<and> share e f then F (Fin 1) else F (Fin 0)) es)
                    es))"

subsection \<open>The report\<close>

type_synonym spec_entry = "string \<times> real list \<times> real list"

text \<open>
  One entry of the dictionary \<^verbatim>\<open>specs\<close>: the two spectra are computed left to right
  and the first exception ends the construction.
\<close>

definition spec_pair ::
  "kernel \<Rightarrow> string \<Rightarrow> error + matrix \<Rightarrow> error + matrix \<Rightarrow> error + spec_entry" where
  "spec_pair geev key M1 M2 =
     ebind M1 (\<lambda>m1.
     ebind (sorted_eigvals geev m1) (\<lambda>s1.
     ebind M2 (\<lambda>m2.
     ebind (sorted_eigvals geev m2) (\<lambda>s2.
     Inr (key, s1, s2)))))"

fun collect :: "(error + 'a) list \<Rightarrow> error + 'a list" where
  "collect [] = Inr []"
| "collect (r # rs) = ebind r (\<lambda>v. ebind (collect rs) (\<lambda>vs. Inr (v # vs)))"

text \<open>
  The keys in the order of the dictionary literal. The fifth key is written with a
  non-breaking hyphen (one code point) in the notebook, here with an ASCII hyphen.
\<close>

definition rep_names :: "string list" where
  "rep_names = [''Adjacency A'', ''Laplacian L'', ''Normalized L'', ''Signless |L|'',
                ''Line-graph A'']"

definition specs ::
  "kernel \<Rightarrow> rowsum \<Rightarrow> inner \<Rightarrow> linegraph \<Rightarrow> matrix \<Rightarrow> matrix
     \<Rightarrow> error + spec_entry list" where
  "specs geev fsum fdot lgraph A1m A2m = collect
     [spec_pair geev (rep_names ! 0) (Inr A1m) (Inr A2m),
      spec_pair geev (rep_names ! 1) (laplacian fsum A1m) (laplacian fsum A2m),
      spec_pair geev (rep_names ! 2) (normalized_laplacian fsum fdot A1m)
        (normalized_laplacian fsum fdot A2m),
      spec_pair geev (rep_names ! 3) (signless_laplacian fsum A1m) (signless_laplacian fsum A2m),
      spec_pair geev (rep_names ! 4) (lgraph A1m) (lgraph A2m)]"

definition pad15 :: "string \<Rightarrow> string" where
  \<comment> \<open>the format \<^verbatim>\<open>{mat_name:15}\<close>\<close>
  "pad15 s = s @ replicate (15 - length s) (CHR '' '')"

definition report_line :: "string \<Rightarrow> bool \<Rightarrow> string" where
  "report_line key ok = pad15 key @ '': '' @ (if ok then ''cospettrali'' else ''diversi'')"


text \<open>
  The printing loop. The state is the list of lines printed so far; an exception of
  \<^verbatim>\<open>np.allclose\<close> leaves the loop with the lines already printed.
\<close>

fun report_loop :: "spec_entry list \<Rightarrow> string list \<Rightarrow> string list \<times> error option" where
  "report_loop [] out = (out, None)"
| "report_loop ((key, s1, s2) # rest) out =
     (case allclose s1 s2 of
        Inl e \<Rightarrow> (out, Some e)
      | Inr ok \<Rightarrow> report_loop rest (out @ [report_line key ok]))"

definition compare_pair ::
  "kernel \<Rightarrow> rowsum \<Rightarrow> inner \<Rightarrow> linegraph \<Rightarrow> matrix \<Rightarrow> matrix \<Rightarrow> string
     \<Rightarrow> string list \<times> error option" where
  "compare_pair geev fsum fdot lgraph A1 A2 name =
     (let A1m = to_adj A1; A2m = to_adj A2
      in case specs geev fsum fdot lgraph A1m A2m of
           Inl e \<Rightarrow> ([], Some e)
         | Inr sp \<Rightarrow> report_loop sp [CHR 0x0A # name])"

subsection \<open>Instances of the library routines\<close>

text \<open>
  The eigenvalues of an upper triangular matrix are its diagonal entries. The instance
  below returns them for such a matrix and reports failure for any other, so that the
  functions above can be evaluated on triangular and diagonal inputs.
\<close>

definition upper_triangular :: "real list list \<Rightarrow> bool" where
  "upper_triangular R =
     list_all (\<lambda>i. list_all (\<lambda>j. R ! i ! j = 0) [0..<i]) [0..<length R]"

definition tri_geev :: kernel where
  "tri_geev R = (if upper_triangular R then Some (\<lambda>i. complex_of_real (R ! i ! i)) else None)"

text \<open>
  Adding in index order, starting from zero: what numpy does for a row of fewer than
  eight entries, and one order among those BLAS may use.
\<close>

definition seq_sum :: rowsum where
  "seq_sum xs = foldl fl_add (Fin 0) xs"

definition seq_dot :: inner where
  "seq_dot xs ys = foldl fl_add (Fin 0) (map2 fl_mul xs ys)"


subsection \<open>Reference notions\<close>





section \<open>Rounding\<close>

lemma ulp_from_range: "- 1074 \<le> ulp_from k x \<and> ulp_from k x \<le> int k - 1074"
  by (induction k) auto

lemma ulp_from_lower: "ulp_from k x \<noteq> - 1074 \<Longrightarrow> 2 powi (ulp_from k x + 52) \<le> \<bar>x\<bar>"
  by (induction k) (auto simp: algebra_simps)

lemma ulp_from_upper: "ulp_from k x < int k - 1074 \<Longrightarrow> \<bar>x\<bar> < 2 powi (ulp_from k x + 53)"
proof (induction k)
  case 0
  then show ?case by simp
next
  case (Suc k)
  show ?case
  proof (cases "2 powi (int k - 1021) \<le> \<bar>x\<bar>")
    case True
    with Suc.prems show ?thesis by simp
  next
    case False
    then have e: "ulp_from (Suc k) x = ulp_from k x" by simp
    show ?thesis
    proof (cases "ulp_from k x < int k - 1074")
      case True
      then show ?thesis using Suc.IH e by simp
    next
      case False
      then have "ulp_from k x = int k - 1074"
        using ulp_from_range[of k x] by linarith
      then have eq: "ulp_from (Suc k) x + 53 = int k - 1021" using e by simp
      have "\<bar>x\<bar> < 2 powi (int k - 1021)"
        using \<open>\<not> 2 powi (int k - 1021) \<le> \<bar>x\<bar>\<close> by simp
      then show ?thesis unfolding eq .
    qed
  qed
qed

lemma ulp_exp_range: "- 1074 \<le> ulp_exp x" "ulp_exp x \<le> 972"
  using ulp_from_range[of 2046 x] by (simp_all add: ulp_exp_def)

lemma ulp_exp_lower: "ulp_exp x \<noteq> - 1074 \<Longrightarrow> 2 powi (ulp_exp x + 52) \<le> \<bar>x\<bar>"
  unfolding ulp_exp_def by (rule ulp_from_lower)

lemma ulp_exp_upper: "ulp_exp x \<noteq> 972 \<Longrightarrow> \<bar>x\<bar> < 2 powi (ulp_exp x + 53)"
  unfolding ulp_exp_def using ulp_from_upper[of 2046 x] ulp_from_range[of 2046 x] by simp

lemma powi2_mono: "a \<le> b \<Longrightarrow> (2::real) powi a \<le> 2 powi b"
  by (rule power_int_increasing) simp_all

lemma powi2_less_cancel: "(2::real) powi a < 2 powi b \<Longrightarrow> a < b"
  using powi2_mono[of b a] by (cases "a < b") auto

lemma ulp_exp_unique:
  assumes "- 1074 \<le> e" "e \<le> 972"
    and lo: "e = - 1074 \<or> 2 powi (e + 52) \<le> \<bar>x\<bar>"
    and hi: "e = 972 \<or> \<bar>x\<bar> < 2 powi (e + 53)"
  shows "ulp_exp x = e"
proof (rule antisym)
  show "ulp_exp x \<le> e"
  proof (rule ccontr)
    assume "\<not> ulp_exp x \<le> e"
    then have gt: "e < ulp_exp x" by simp
    then have "ulp_exp x \<noteq> - 1074" using assms(1) by simp
    then have "2 powi (ulp_exp x + 52) \<le> \<bar>x\<bar>" by (rule ulp_exp_lower)
    moreover have "e \<noteq> 972" using gt ulp_exp_range(2)[of x] by simp
    then have "\<bar>x\<bar> < 2 powi (e + 53)" using hi by simp
    ultimately have "(2::real) powi (ulp_exp x + 52) < 2 powi (e + 53)" by simp
    then have "ulp_exp x + 52 < e + 53" by (rule powi2_less_cancel)
    with gt show False by simp
  qed
  show "e \<le> ulp_exp x"
  proof (rule ccontr)
    assume "\<not> e \<le> ulp_exp x"
    then have lt: "ulp_exp x < e" by simp
    then have "e \<noteq> - 1074" using ulp_exp_range(1)[of x] by simp
    then have "2 powi (e + 52) \<le> \<bar>x\<bar>" using lo by simp
    moreover have "ulp_exp x \<noteq> 972" using lt assms(2) by simp
    then have "\<bar>x\<bar> < 2 powi (ulp_exp x + 53)" by (rule ulp_exp_upper)
    ultimately have "(2::real) powi (e + 52) < 2 powi (ulp_exp x + 53)" by simp
    then have "e + 52 < ulp_exp x + 53" by (rule powi2_less_cancel)
    with lt show False by simp
  qed
qed

lemma p2pos [simp]: "(0::real) < 2 powi e"
  by (simp add: zero_less_power_int)

lemma p2nz [simp]: "(2::real) powi e \<noteq> 0"
  using p2pos[of e] by simp

lemma p2_add: "(2::real) powi (a + b) = 2 powi a * 2 powi b"
  by (simp add: power_int_add)

lemma p2_diff: "(2::real) powi (a - b) = 2 powi a / 2 powi b"
  by (simp add: power_int_diff)

lemma p2_nat: "(2::real) powi int k = 2 ^ k"
  by simp

lemma p2_of_int: "0 \<le> j \<Longrightarrow> (2::real) powi j = of_int (2 ^ nat j)"
  by (simp add: power_int_def)




lemma half_even_of_int [simp]: "half_even (of_int k) = k"
  by (simp add: half_even_def)

lemma half_even_zero [simp]: "half_even 0 = 0"
  using half_even_of_int[of 0] by simp






lemma round64_rnd:
  "round64 x = (if 2 ^ 1024 \<le> \<bar>rnd x\<bar> then (if 0 < x then PInf else NInf) else Fin (rnd x))"
  by (rule round64_def)







lemma round64_zero [simp]: "round64 0 = Fin 0"
  by (simp add: round64_rnd rnd_def)

lemma round64_not_NaN [simp]: "round64 x \<noteq> NaN"
  by (simp add: round64_rnd)




lemma powi2_le_cancel: "(2::real) powi a \<le> 2 powi b \<Longrightarrow> a \<le> b"
proof (rule ccontr)
  assume le: "(2::real) powi a \<le> 2 powi b" and "\<not> a \<le> b"
  then have "b < a" by simp
  then have "(2::real) powi b < 2 powi a"
    by (intro power_int_strict_increasing) simp_all
  with le show False by simp
qed

lemma rnd_exact:
  assumes "x / 2 powi ulp_exp x = of_int q"
  shows "rnd x = x"
proof -
  have "x = of_int q * 2 powi ulp_exp x"
    using assms by (simp add: nonzero_divide_eq_eq)
  then show ?thesis by (simp add: rnd_def assms)
qed

lemma round64_exact:
  assumes "x / 2 powi ulp_exp x = of_int q" "\<bar>x\<bar> < 2 ^ 1024"
  shows "round64 x = Fin x"
  using assms(2) by (simp add: round64_rnd rnd_exact[OF assms(1)])

text \<open>Every double is a fixed point of the rounding.\<close>

lemma round64_rep:
  assumes x: "x = of_int r * 2 powi t" and t: "- 1074 \<le> t" and r: "\<bar>r\<bar> \<le> 2 ^ 53"
    and fin: "\<bar>x\<bar> < 2 ^ 1024"
  shows "round64 x = Fin x"
proof -
  let ?e = "ulp_exp x"
  have "\<exists>q. x / 2 powi ?e = of_int q"
  proof (cases "?e \<le> t")
    case True
    then have j: "0 \<le> t - ?e" by simp
    have "x / 2 powi ?e = of_int r * 2 powi (t - ?e)"
      by (simp add: x p2_diff)
    also have "\<dots> = of_int (r * 2 ^ nat (t - ?e))"
      by (simp add: p2_of_int[OF j])
    finally show ?thesis by blast
  next
    case False
    then have gt: "t < ?e" by simp
    then have "?e \<noteq> - 1074" using t by simp
    then have lo: "2 powi (?e + 52) \<le> \<bar>x\<bar>" by (rule ulp_exp_lower)
    have ax: "\<bar>x\<bar> = of_int \<bar>r\<bar> * 2 powi t" by (simp add: x abs_mult)
    have "(of_int \<bar>r\<bar> :: real) \<le> of_int (2 ^ 53)" using r by (simp only: of_int_le_iff)
    then have rle: "(of_int \<bar>r\<bar> :: real) \<le> 2 powi 53" by simp
    then have "\<bar>x\<bar> \<le> 2 powi 53 * 2 powi t"
      unfolding ax by (rule mult_right_mono) simp
    then have "\<bar>x\<bar> \<le> 2 powi (t + 53)" by (simp add: p2_add)
    with lo have "(2::real) powi (?e + 52) \<le> 2 powi (t + 53)" by simp
    then have "?e + 52 \<le> t + 53" by (rule powi2_le_cancel)
    with gt have e: "?e = t + 1" by simp
    have e52: "?e + 52 = t + 53" using e by simp
    have "2 powi (t + 53) \<le> of_int \<bar>r\<bar> * (2::real) powi t"
      using lo unfolding e52 ax .
    then have "2 powi 53 * 2 powi t \<le> of_int \<bar>r\<bar> * (2::real) powi t"
      by (simp add: p2_add mult.commute)
    then have "(2::real) powi 53 \<le> of_int \<bar>r\<bar>"
      by (simp only: mult_le_cancel_right_pos p2pos)
    with rle have "(of_int \<bar>r\<bar> :: real) = of_int (2 ^ 53)" by simp
    then have "\<bar>r\<bar> = 2 ^ 53" by (simp only: of_int_eq_iff)
    then have "even \<bar>r\<bar>" by simp
    then have "even r" by simp
    then obtain q where q: "r = 2 * q" by (rule evenE)
    have pe: "2 powi ?e = (2::real) powi t * 2"
      unfolding e by (simp add: p2_add)
    have "x / 2 powi ?e = x / (2 powi t * 2)"
      by (simp only: pe)
    also have "\<dots> = of_int r * 2 powi t / (2 powi t * 2)"
      by (simp only: x[symmetric])
    also have "\<dots> = of_int q" by (simp add: q)
    finally show ?thesis by blast
  qed
  then obtain q where "x / 2 powi ?e = of_int q" ..
  then show ?thesis using fin by (rule round64_exact)
qed

lemma round64_int:
  assumes "\<bar>k\<bar> \<le> 2 ^ 53"
  shows "round64 (of_int k) = Fin (of_int k)"
proof (rule round64_rep[where r = k and t = 0])
  show "(of_int k :: real) = of_int k * 2 powi 0" by simp
  show "- 1074 \<le> (0::int)" by simp
  show "\<bar>k\<bar> \<le> 2 ^ 53" by (rule assms)
  have "(of_int \<bar>k\<bar> :: real) \<le> of_int (2 ^ 53)" using assms by (simp only: of_int_le_iff)
  then have "\<bar>of_int k :: real\<bar> \<le> 2 ^ 53" by simp
  also have "(2::real) ^ 53 < 2 ^ 1024" by (intro power_strict_increasing) simp_all
  finally show "\<bar>of_int k :: real\<bar> < 2 ^ 1024" .
qed

lemma round64_nat:
  assumes "k \<le> 2 ^ 53"
  shows "round64 (real k) = Fin (real k)"
proof -
  have "int k \<le> int (2 ^ 53)" using assms by (simp only: of_nat_le_iff)
  then have "\<bar>int k\<bar> \<le> 2 ^ 53" by simp
  then have "round64 (of_int (int k)) = Fin (of_int (int k))" by (rule round64_int)
  then show ?thesis by simp
qed


text \<open>Rounding a given value, once the exponent and the rounded mantissa are known.\<close>

lemma round64_eval:
  assumes "- 1074 \<le> e" "e \<le> 972"
    and "e = - 1074 \<or> 2 powi (e + 52) \<le> \<bar>x\<bar>"
    and "e = 972 \<or> \<bar>x\<bar> < 2 powi (e + 53)"
    and "half_even (x / 2 powi e) = m"
    and "\<bar>of_int m * 2 powi e :: real\<bar> < 2 ^ 1024"
  shows "round64 x = Fin (of_int m * 2 powi e)"
proof -
  have "ulp_exp x = e" using assms(1-4) by (rule ulp_exp_unique)
  then have "rnd x = of_int m * 2 powi e" by (simp add: rnd_def assms(5))
  then show ?thesis using assms(6) by (simp add: round64_rnd)
qed

section \<open>Shapes\<close>

lemma square_length: "square R \<Longrightarrow> i < length R \<Longrightarrow> length (R ! i) = length R"
  by (simp add: square_def rect_def nrows_def list_all_length)

lemma square_ncols: "square R \<Longrightarrow> ncols R = length R"
  by (simp add: square_def nrows_def)

lemma square_nrows: "square R \<Longrightarrow> nrows R = length R"
  by (simp add: nrows_def)

lemma nrows_tabulate2: "nrows (tabulate2 m n f) = m"
  by (simp add: nrows_def tabulate2_def)

lemma length_tabulate2: "length (tabulate2 m n f) = m"
  by (simp add: tabulate2_def)

lemma ncols_tabulate2: "0 < m \<Longrightarrow> ncols (tabulate2 m n f) = n"
  by (cases m) (simp_all add: ncols_def tabulate2_def upt_conv_Cons del: upt_Suc)

lemma ncols_tabulate2_square: "ncols (tabulate2 n n f) = n"
  by (cases "n = 0") (simp_all add: ncols_tabulate2, simp add: ncols_def tabulate2_def)

lemma tabulate2_nth: "i < m \<Longrightarrow> j < n \<Longrightarrow> tabulate2 m n f ! i ! j = f i j"
  by (simp add: tabulate2_def)

lemma tabulate2_row: "i < m \<Longrightarrow> tabulate2 m n f ! i = map (f i) [0..<n]"
  by (simp add: tabulate2_def)

lemma tabulate2_cong:
  "(\<And>i j. i < m \<Longrightarrow> j < n \<Longrightarrow> f i j = g i j) \<Longrightarrow> tabulate2 m n f = tabulate2 m n g"
  by (simp add: tabulate2_def)




lemma square_as_tabulate2:
  assumes "square R"
  shows "R = tabulate2 (length R) (length R) (\<lambda>i j. R ! i ! j)"
proof (rule nth_equalityI)
  show "length R = length (tabulate2 (length R) (length R) (\<lambda>i j. R ! i ! j))"
    by (simp add: length_tabulate2)
next
  fix i assume i: "i < length R"
  show "R ! i = tabulate2 (length R) (length R) (\<lambda>i j. R ! i ! j) ! i"
    using i map_nth[of "R ! i"] square_length[OF assms i] by (simp add: tabulate2_row)
qed

lemma nrows_np_diag: "nrows (np_diag v) = length v"
  by (simp add: np_diag_def nrows_tabulate2)

lemma ncols_np_diag: "ncols (np_diag v) = length v"
  by (simp add: np_diag_def ncols_tabulate2_square)

lemma np_diag_nth:
  "i < length v \<Longrightarrow> j < length v \<Longrightarrow> np_diag v ! i ! j = (if i = j then v ! i else zero_of v)"
  by (simp add: np_diag_def tabulate2_nth)

lemma length_np_sum_axis1: "length (np_sum_axis1 fsum A) = length A"
  by (simp add: np_sum_axis1_def)

lemma np_sum_axis1_nth: "i < length A \<Longrightarrow> np_sum_axis1 fsum A ! i = np_sum fsum (A ! i)"
  by (simp add: np_sum_axis1_def)

lemma broadcast2_square:
  assumes "nrows X = n" "ncols X = n" "nrows Y = n" "ncols Y = n"
  shows "broadcast2 f X Y = Inr (tabulate2 n n (\<lambda>i j. f (X ! i ! j) (Y ! i ! j)))"
proof (cases "n = 1")
  case True
  then show ?thesis using assms
    by (simp add: broadcast2_def bcast_ok_def bcast_dim_def bidx_def tabulate2_def)
next
  case False
  then show ?thesis using assms
    by (simp add: broadcast2_def bcast_ok_def bcast_dim_def bidx_def)
qed

text \<open>The degree matrix combined with a square array, entry by entry.\<close>

lemma degree_op_square:
  assumes "square A"
  shows "broadcast2 f (np_diag (np_sum_axis1 fsum A)) A
         = Inr (tabulate2 (length A) (length A)
             (\<lambda>i j. f (if i = j then np_sum fsum (A ! i) else zero_of (np_sum_axis1 fsum A))
                      (A ! i ! j)))"
proof -
  let ?n = "length A"
  let ?D = "np_diag (np_sum_axis1 fsum A)"
  have shapeD: "nrows ?D = ?n" "ncols ?D = ?n"
    by (simp_all add: nrows_np_diag ncols_np_diag length_np_sum_axis1)
  have shapeA: "nrows A = ?n" "ncols A = ?n"
    using assms by (simp_all add: nrows_def square_ncols)
  have "tabulate2 ?n ?n (\<lambda>i j. f (?D ! i ! j) (A ! i ! j))
        = tabulate2 ?n ?n
            (\<lambda>i j. f (if i = j then np_sum fsum (A ! i) else zero_of (np_sum_axis1 fsum A))
                     (A ! i ! j))"
    by (rule tabulate2_cong)
       (simp add: np_diag_nth length_np_sum_axis1 np_sum_axis1_nth)
  then show ?thesis
    by (simp only: broadcast2_square[OF shapeD shapeA])
qed

lemmas array_defs = emb_def iarr_def nrows_def ncols_def np_diag_def np_sum_def
  np_sum_axis1_def zero_of_def broadcast2_def bcast_ok_def bcast_dim_def bidx_def
  matmul_def mm_def column_def zero_infs_def d_inv_sqrt_def inv_sqrt_def to_adj_def
  ebind_def tabulate2_def

section \<open>The Laplacian and the signless Laplacian\<close>

lemma square_K3: "square (iarr [[0, 1, 1], [1, 0, 1], [1, 1, 0]])"
  by (simp add: square_def rect_def nrows_def ncols_def iarr_def)

lemmas eval_upt = upt_conv_Cons tabulate2_def

text \<open>
  C3. For a square matrix the Laplacian is \<open>diag(rowSums(A)) - A\<close> and the signless
  Laplacian is \<open>diag(rowSums(A)) + A\<close>, entry by entry in the arithmetic of the array's
  dtype: entry \<open>(i, j)\<close> is the sum of row \<open>i\<close> on the diagonal and zero off it, minus
  (plus) the entry of \<open>A\<close>. This holds for int64 and for float64 arrays and for any order
  in which the library adds a float64 row.
\<close>

theorem laplacian_formulas:
  assumes "square A"
  shows "laplacian fsum A = Inr (tabulate2 (length A) (length A)
            (\<lambda>i j. el_sub (if i = j then np_sum fsum (A ! i)
                             else zero_of (np_sum_axis1 fsum A)) (A ! i ! j)))
       \<and> signless_laplacian fsum A = Inr (tabulate2 (length A) (length A)
            (\<lambda>i j. el_add (if i = j then np_sum fsum (A ! i)
                             else zero_of (np_sum_axis1 fsum A)) (A ! i ! j)))"
  unfolding laplacian_def signless_laplacian_def to_adj_def Let_def
  by (rule conjI) (rule degree_op_square[OF assms])+

theorem laplacian_formulas_witness:
  "square (iarr [[0, 1, 1], [1, 0, 1], [1, 1, 0]])
   \<and> laplacian seq_sum (iarr [[0, 1, 1], [1, 0, 1], [1, 1, 0]])
       = Inr (iarr [[2, - 1, - 1], [- 1, 2, - 1], [- 1, - 1, 2]])
   \<and> signless_laplacian seq_sum (iarr [[0, 1, 1], [1, 0, 1], [1, 1, 0]])
       = Inr (iarr [[2, 1, 1], [1, 2, 1], [1, 1, 2]])"
  using laplacian_formulas[OF square_K3, of seq_sum] square_K3
  by (simp add: iarr_def np_sum_def np_sum_axis1_def zero_of_def eval_upt del: upt_Suc)

text \<open>
  The arithmetic is that of the dtype: for an int64 array a row sum of \<open>2^63\<close> wraps
  around, and the diagonal entry \<open>2^63 + 2^62\<close> of the signless Laplacian is \<open>-2^62\<close>.
\<close>

lemma signless_wraps:
  "signless_laplacian seq_sum (iarr [[2 ^ 62, 2 ^ 62], [0, 0]])
   = Inr (iarr [[- (2 ^ 62), 2 ^ 62], [0, 0]])"
  by (simp add: signless_laplacian_def array_defs upt_conv_Cons del: upt_Suc)

section \<open>The spectrum\<close>


lemma fin_opt_Fin [simp]: "fin_opt (F (Fin a)) = Some a"
  by (simp add: fin_opt_def)







lemma sorted_eigvals_nonsquare:
  "nrows A \<noteq> ncols A \<Longrightarrow> sorted_eigvals geev A = Inl LinAlgError"
  by (simp add: sorted_eigvals_def np_linalg_eigvals_def to_adj_def ebind_def)

lemma sorted_eigvals_length:
  "sorted_eigvals geev A = Inr s \<Longrightarrow> length s = nrows A"
  by (auto simp: sorted_eigvals_def np_linalg_eigvals_def to_adj_def ebind_def
      split: if_splits option.splits)



section \<open>Arrays that are not square\<close>

lemma nonsquare_rows: "nrows A \<noteq> ncols A \<Longrightarrow> 0 < nrows A"
  by (cases A) (simp_all add: nrows_def ncols_def)

lemma nrows_zero_infs: "nrows (zero_infs M) = nrows M"
  by (simp add: zero_infs_def nrows_def)

lemma ncols_zero_infs: "ncols (zero_infs M) = ncols M"
  by (cases M) (simp_all add: zero_infs_def ncols_def)

lemma nrows_mm: "nrows (mm fdot X Y) = nrows X"
  by (simp add: mm_def nrows_tabulate2)

lemma ncols_mm: "0 < nrows X \<Longrightarrow> ncols (mm fdot X Y) = ncols Y"
  by (simp add: mm_def ncols_tabulate2)

text \<open>The degree matrix against an array with one row, and against one with one column.\<close>

lemma degree_op_row:
  assumes "nrows A = 1" "ncols A \<noteq> 1"
  shows "broadcast2 f (np_diag (np_sum_axis1 fsum A)) A
         = Inr [map (\<lambda>j. f (np_sum fsum (A ! 0)) (A ! 0 ! j)) [0..<ncols A]]"
proof -
  have len: "length A = 1" using assms(1) by (simp add: nrows_def)
  then show ?thesis
    using assms
    by (simp add: broadcast2_def nrows_np_diag ncols_np_diag length_np_sum_axis1 bcast_ok_def
        bcast_dim_def bidx_def tabulate2_def np_diag_nth np_sum_axis1_nth)
qed

lemma degree_op_column:
  assumes "ncols A = 1" "nrows A \<noteq> 1"
  shows "broadcast2 f (np_diag (np_sum_axis1 fsum A)) A
         = Inr (tabulate2 (nrows A) (nrows A)
             (\<lambda>i j. f (if i = j then np_sum fsum (A ! i) else zero_of (np_sum_axis1 fsum A))
                      (A ! i ! 0)))"
proof -
  let ?m = "nrows A"
  let ?D = "np_diag (np_sum_axis1 fsum A)"
  have len: "length (np_sum_axis1 fsum A) = ?m"
    by (simp add: length_np_sum_axis1 nrows_def)
  have "broadcast2 f ?D A = Inr (tabulate2 ?m ?m (\<lambda>i j. f (?D ! i ! j) (A ! i ! 0)))"
    using assms
    by (simp add: broadcast2_def nrows_np_diag ncols_np_diag len bcast_ok_def
        bcast_dim_def bidx_def)
  also have "tabulate2 ?m ?m (\<lambda>i j. f (?D ! i ! j) (A ! i ! 0))
      = tabulate2 ?m ?m
          (\<lambda>i j. f (if i = j then np_sum fsum (A ! i) else zero_of (np_sum_axis1 fsum A))
                   (A ! i ! 0))"
    by (rule tabulate2_cong) (simp add: np_diag_nth len np_sum_axis1_nth nrows_def)
  finally show ?thesis .
qed

lemma degree_op_error:
  assumes "nrows A \<noteq> ncols A" "nrows A \<noteq> 1" "ncols A \<noteq> 1"
  shows "broadcast2 f (np_diag (np_sum_axis1 fsum A)) A = Inl ValueError"
  using assms
  by (simp add: broadcast2_def nrows_np_diag ncols_np_diag length_np_sum_axis1 bcast_ok_def
      nrows_def)
lemma nrows_d_inv_sqrt: "nrows (d_inv_sqrt fsum A) = nrows A"
  by (simp add: d_inv_sqrt_def nrows_zero_infs nrows_np_diag length_np_sum_axis1)
     (simp add: nrows_def)

lemma ncols_d_inv_sqrt: "ncols (d_inv_sqrt fsum A) = nrows A"
  by (simp add: d_inv_sqrt_def ncols_zero_infs ncols_np_diag length_np_sum_axis1)
     (simp add: nrows_def)

lemma normalized_laplacian_unfold:
  "normalized_laplacian fsum fdot A
   = ebind (laplacian fsum A) (\<lambda>L.
       ebind (matmul fdot (d_inv_sqrt fsum A) L) (\<lambda>X. matmul fdot X (d_inv_sqrt fsum A)))"
  by (simp add: normalized_laplacian_def to_adj_def Let_def)

lemma normalized_of_laplacian:
  assumes "laplacian fsum A = Inr L" "nrows L = nrows A" "0 < nrows A"
  shows "normalized_laplacian fsum fdot A
         = (if ncols L = nrows A
            then Inr (mm fdot (mm fdot (d_inv_sqrt fsum A) L) (d_inv_sqrt fsum A))
            else Inl ValueError)"
  using assms
  by (simp add: normalized_laplacian_unfold ebind_def matmul_def ncols_d_inv_sqrt
      nrows_d_inv_sqrt ncols_mm)

text \<open>
  C8, as the code behaves. \<open>sorted_eigvals\<close> fails on every non-square array
  (LinAlgError). The three derivations have no shape check of their own. On an \<open>m \<times> n\<close>
  array with \<open>m \<noteq> n\<close> the Laplacian and the signless Laplacian fail (ValueError of the
  broadcast) exactly when neither \<open>m\<close> nor \<open>n\<close> is 1. For \<open>m = 1\<close> they return the
  \<open>1 \<times> n\<close> array of the row sum minus (plus) each entry; for \<open>n = 1\<close> the \<open>m \<times> m\<close> array
  whose entry \<open>(i, j)\<close> is the row sum or zero minus (plus) the single entry of row \<open>i\<close>.
  The normalized Laplacian fails exactly when \<open>n \<noteq> 1\<close>; for \<open>n = 1\<close> it returns the
  \<open>m \<times> m\<close> product of \<open>D_inv_sqrt\<close>, that Laplacian and \<open>D_inv_sqrt\<close>.
\<close>

theorem nonsquare_behaviour:
  assumes "nrows A \<noteq> ncols A"
  shows "sorted_eigvals geev A = Inl LinAlgError
       \<and> laplacian fsum A =
           (if nrows A = 1
            then Inr [map (\<lambda>j. el_sub (np_sum fsum (A ! 0)) (A ! 0 ! j)) [0..<ncols A]]
            else if ncols A = 1
            then Inr (tabulate2 (nrows A) (nrows A)
                   (\<lambda>i j. el_sub (if i = j then np_sum fsum (A ! i)
                                    else zero_of (np_sum_axis1 fsum A)) (A ! i ! 0)))
            else Inl ValueError)
       \<and> signless_laplacian fsum A =
           (if nrows A = 1
            then Inr [map (\<lambda>j. el_add (np_sum fsum (A ! 0)) (A ! 0 ! j)) [0..<ncols A]]
            else if ncols A = 1
            then Inr (tabulate2 (nrows A) (nrows A)
                   (\<lambda>i j. el_add (if i = j then np_sum fsum (A ! i)
                                    else zero_of (np_sum_axis1 fsum A)) (A ! i ! 0)))
            else Inl ValueError)
       \<and> normalized_laplacian fsum fdot A =
           (if ncols A = 1
            then Inr (mm fdot
                   (mm fdot (d_inv_sqrt fsum A)
                      (tabulate2 (nrows A) (nrows A)
                         (\<lambda>i j. el_sub (if i = j then np_sum fsum (A ! i)
                                          else zero_of (np_sum_axis1 fsum A)) (A ! i ! 0))))
                   (d_inv_sqrt fsum A))
            else Inl ValueError)"
proof -
  have pos: "0 < nrows A" using assms by (rule nonsquare_rows)
  have lap: "laplacian fsum A = broadcast2 el_sub (np_diag (np_sum_axis1 fsum A)) A"
    and slap: "signless_laplacian fsum A = broadcast2 el_add (np_diag (np_sum_axis1 fsum A)) A"
    by (simp_all add: laplacian_def signless_laplacian_def to_adj_def)
  consider (row) "nrows A = 1" "ncols A \<noteq> 1" | (col) "ncols A = 1" "nrows A \<noteq> 1"
    | (err) "nrows A \<noteq> 1" "ncols A \<noteq> 1"
    using assms by fastforce
  then show ?thesis
  proof cases
    case row
    let ?L = "[map (\<lambda>j. el_sub (np_sum fsum (A ! 0)) (A ! 0 ! j)) [0..<ncols A]]"
    have L: "laplacian fsum A = Inr ?L"
      unfolding lap using row by (rule degree_op_row)
    have "normalized_laplacian fsum fdot A = Inl ValueError"
      using normalized_of_laplacian[OF L _ pos, of fdot] row
      by (simp add: nrows_def ncols_def)
    then show ?thesis
      using row L degree_op_row[OF row, of el_add fsum]
      by (simp add: slap sorted_eigvals_nonsquare[OF assms])
  next
    case col
    let ?L = "tabulate2 (nrows A) (nrows A)
                (\<lambda>i j. el_sub (if i = j then np_sum fsum (A ! i)
                                 else zero_of (np_sum_axis1 fsum A)) (A ! i ! 0))"
    have L: "laplacian fsum A = Inr ?L"
      unfolding lap using col by (rule degree_op_column)
    have "normalized_laplacian fsum fdot A
          = Inr (mm fdot (mm fdot (d_inv_sqrt fsum A) ?L) (d_inv_sqrt fsum A))"
      using normalized_of_laplacian[OF L _ pos, of fdot]
      by (simp add: nrows_tabulate2 ncols_tabulate2_square)
    then show ?thesis
      using col L degree_op_column[OF col, of el_add fsum]
      by (simp add: slap sorted_eigvals_nonsquare[OF assms])
  next
    case err
    have L: "laplacian fsum A = Inl ValueError"
      unfolding lap using assms err by (rule degree_op_error)
    have "normalized_laplacian fsum fdot A = Inl ValueError"
      by (simp add: normalized_laplacian_unfold L ebind_def)
    then show ?thesis
      using err L degree_op_error[OF assms err, of el_add fsum]
      by (simp add: slap sorted_eigvals_nonsquare[OF assms])
  qed
qed

theorem nonsquare_behaviour_witness:
  "nrows (iarr [[1, 2, 3], [4, 5, 6]]) \<noteq> ncols (iarr [[1, 2, 3], [4, 5, 6]])
   \<and> sorted_eigvals tri_geev (iarr [[1, 2, 3], [4, 5, 6]]) = Inl LinAlgError
   \<and> laplacian seq_sum (iarr [[1, 2, 3], [4, 5, 6]]) = Inl ValueError
   \<and> signless_laplacian seq_sum (iarr [[1, 2, 3], [4, 5, 6]]) = Inl ValueError
   \<and> normalized_laplacian seq_sum seq_dot (iarr [[1, 2, 3], [4, 5, 6]]) = Inl ValueError"
proof -
  have shape: "nrows (iarr [[1, 2, 3], [4, 5, 6]]) = 2" "ncols (iarr [[1, 2, 3], [4, 5, 6]]) = 3"
    by (simp_all add: nrows_def ncols_def iarr_def)
  have ne: "nrows (iarr [[1, 2, 3], [4, 5, 6]]) \<noteq> ncols (iarr [[1, 2, 3], [4, 5, 6]])"
    by (simp add: shape)
  show ?thesis
    using nonsquare_behaviour[OF ne, of tri_geev seq_sum seq_dot] ne by (simp add: shape)
qed

text \<open>
  The claim as stated fails: the Laplacian of the \<open>1 \<times> 2\<close> array \<open>[[1, 2]]\<close> is
  \<open>[[2, 1]]\<close> and the signless Laplacian of the \<open>2 \<times> 1\<close> array \<open>[[1], [2]]\<close> is
  \<open>[[2, 1], [2, 4]]\<close>; neither call raises.
\<close>

theorem nonsquare_counterexample:
  "nrows (iarr [[1, 2]]) \<noteq> ncols (iarr [[1, 2]])
   \<and> laplacian seq_sum (iarr [[1, 2]]) = Inr (iarr [[2, 1]])
   \<and> nrows (iarr [[1], [2]]) \<noteq> ncols (iarr [[1], [2]])
   \<and> signless_laplacian seq_sum (iarr [[1], [2]]) = Inr (iarr [[2, 1], [2, 4]])"
  by (simp add: laplacian_def signless_laplacian_def array_defs upt_conv_Cons del: upt_Suc)

section \<open>The comparison and the report\<close>

lemma broadcast1_same:
  "length xs = length ys \<Longrightarrow>
   broadcast1 f xs ys = Inr (map (\<lambda>i. f (xs ! i) (ys ! i)) [0..<length xs])"
  by (auto simp: broadcast1_def bcast_ok_def bcast_dim_def bidx_def)

lemma list_all_id_map_upt: "list_all id (map P [0..<n]) = (\<forall>i<n. P i)"
  by (auto simp: list_all_iff)

lemma allclose_same_length:
  "length s1 = length s2 \<Longrightarrow>
   allclose s1 s2 = Inr (\<forall>i<length s1. isclose (s1 ! i) (s2 ! i))"
  by (simp add: allclose_def ebind_def broadcast1_same list_all_id_map_upt)

lemma allclose_length_mismatch:
  assumes "length s1 \<noteq> length s2"
  shows "allclose s1 s2 =
           (if length s1 = 1 then Inr (list_all (isclose (hd s1)) s2)
            else if length s2 = 1 then Inr (list_all (\<lambda>a. isclose a (hd s2)) s1)
            else Inl ValueError)"
proof (cases "length s1 = 1")
  case True
  then have "s1 \<noteq> []" by auto
  then have hd1: "hd s1 = s1 ! 0" by (simp add: hd_conv_nth)
  have "broadcast1 isclose s1 s2 = Inr (map (\<lambda>i. isclose (s1 ! 0) (s2 ! i)) [0..<length s2])"
    using True assms by (simp add: broadcast1_def bcast_ok_def bcast_dim_def bidx_def)
  then show ?thesis
    using True by (simp add: allclose_def ebind_def list_all_id_map_upt hd1 list_all_length)
next
  case n1: False
  show ?thesis
  proof (cases "length s2 = 1")
    case True
    then have "s2 \<noteq> []" by auto
    then have hd2: "hd s2 = s2 ! 0" by (simp add: hd_conv_nth)
    have "broadcast1 isclose s1 s2 = Inr (map (\<lambda>i. isclose (s1 ! i) (s2 ! 0)) [0..<length s1])"
      using True n1 by (simp add: broadcast1_def bcast_ok_def bcast_dim_def bidx_def)
    then show ?thesis
      using True n1
      by (simp add: allclose_def ebind_def list_all_id_map_upt hd2 list_all_length)
  next
    case False
    then show ?thesis
      using n1 assms by (simp add: allclose_def ebind_def broadcast1_def bcast_ok_def)
  qed
qed

lemma ebind_Inr_iff: "ebind r f = Inr y \<longleftrightarrow> (\<exists>v. r = Inr v \<and> f v = Inr y)"
  by (cases r) (simp_all add: ebind_def)

lemma spec_pair_Inr:
  assumes "spec_pair geev key M1 M2 = Inr e"
  shows "\<exists>m1 m2 s1 s2. M1 = Inr m1 \<and> M2 = Inr m2 \<and> sorted_eigvals geev m1 = Inr s1
           \<and> sorted_eigvals geev m2 = Inr s2 \<and> e = (key, s1, s2)"
  using assms unfolding spec_pair_def ebind_Inr_iff by blast

lemma collect_Cons_Inr:
  "collect (r # rs) = Inr vs \<longleftrightarrow> (\<exists>v ws. r = Inr v \<and> collect rs = Inr ws \<and> vs = v # ws)"
  by (cases r; cases "collect rs") (auto simp: ebind_def)

lemma collect_Nil_Inr: "collect [] = Inr vs \<longleftrightarrow> vs = []"
  by auto

lemma specs_Inr:
  assumes "specs geev fsum fdot lgraph A1 A2 = Inr sp"
  shows "\<exists>s1 s2 rest. sp = (rep_names ! 0, s1, s2) # rest
           \<and> sorted_eigvals geev A1 = Inr s1 \<and> sorted_eigvals geev A2 = Inr s2
           \<and> map fst sp = rep_names"
proof -
  from assms obtain e0 r0 where
    e0: "spec_pair geev (rep_names ! 0) (Inr A1) (Inr A2) = Inr e0" and
    c0: "collect
          [spec_pair geev (rep_names ! 1) (laplacian fsum A1) (laplacian fsum A2),
           spec_pair geev (rep_names ! 2) (normalized_laplacian fsum fdot A1)
             (normalized_laplacian fsum fdot A2),
           spec_pair geev (rep_names ! 3) (signless_laplacian fsum A1)
             (signless_laplacian fsum A2),
           spec_pair geev (rep_names ! 4) (lgraph A1) (lgraph A2)] = Inr r0" and
    sp0: "sp = e0 # r0"
    unfolding specs_def collect_Cons_Inr[of _ _ sp] by blast
  from c0 obtain e1 r1 where
    e1: "spec_pair geev (rep_names ! 1) (laplacian fsum A1) (laplacian fsum A2) = Inr e1" and
    c1: "collect
          [spec_pair geev (rep_names ! 2) (normalized_laplacian fsum fdot A1)
             (normalized_laplacian fsum fdot A2),
           spec_pair geev (rep_names ! 3) (signless_laplacian fsum A1)
             (signless_laplacian fsum A2),
           spec_pair geev (rep_names ! 4) (lgraph A1) (lgraph A2)] = Inr r1" and
    sp1: "r0 = e1 # r1"
    unfolding collect_Cons_Inr[of _ _ r0] by blast
  from c1 obtain e2 r2 where
    e2: "spec_pair geev (rep_names ! 2) (normalized_laplacian fsum fdot A1)
           (normalized_laplacian fsum fdot A2) = Inr e2" and
    c2: "collect
          [spec_pair geev (rep_names ! 3) (signless_laplacian fsum A1)
             (signless_laplacian fsum A2),
           spec_pair geev (rep_names ! 4) (lgraph A1) (lgraph A2)] = Inr r2" and
    sp2: "r1 = e2 # r2"
    unfolding collect_Cons_Inr[of _ _ r1] by blast
  from c2 obtain e3 r3 where
    e3: "spec_pair geev (rep_names ! 3) (signless_laplacian fsum A1)
           (signless_laplacian fsum A2) = Inr e3" and
    c3: "collect [spec_pair geev (rep_names ! 4) (lgraph A1) (lgraph A2)]
         = Inr r3" and
    sp3: "r2 = e3 # r3"
    unfolding collect_Cons_Inr[of _ _ r2] by blast
  from c3 obtain e4 where
    e4: "spec_pair geev (rep_names ! 4) (lgraph A1) (lgraph A2) = Inr e4" and
    sp4: "r3 = [e4]"
    unfolding collect_Cons_Inr[of _ _ r3] collect_Nil_Inr by blast
  from spec_pair_Inr[OF e0] obtain s1 s2 where
    s: "sorted_eigvals geev A1 = Inr s1" "sorted_eigvals geev A2 = Inr s2"
       "e0 = (rep_names ! 0, s1, s2)"
    by auto
  have k1: "fst e1 = rep_names ! 1" using spec_pair_Inr[OF e1] by auto
  have k2: "fst e2 = rep_names ! 2" using spec_pair_Inr[OF e2] by auto
  have k3: "fst e3 = rep_names ! 3" using spec_pair_Inr[OF e3] by auto
  have k4: "fst e4 = rep_names ! 4" using spec_pair_Inr[OF e4] by auto
  have "map fst sp = rep_names"
    by (simp add: sp0 sp1 sp2 sp3 sp4 s k1 k2 k3 k4) (simp add: rep_names_def)
  then show ?thesis using s sp0 by blast
qed

lemma round64_atol: "round64 atol = Fin atol"
  by (rule round64_rep[where r = 3022314549036573 and t = "- 78"])
     (simp_all add: atol_def power_int_minus field_simps)

lemma isclose_zero: "isclose 0 0"
  by (simp add: isclose_def fl_sub_def round64_atol) (simp add: atol_def)

lemmas report_defs = compare_pair_def specs_def spec_pair_def sorted_eigvals_def
  np_linalg_eigvals_def finite_matrix_def fin_opt_def to_f64_def tri_geev_def
  upper_triangular_def laplacian_def normalized_laplacian_def signless_laplacian_def
  line_graph_adj_def nx_edges_def allclose_def broadcast1_def rep_names_def seq_sum_def
  seq_dot_def fl_sub_def

lemma compare_pair_size_mismatch:
  assumes "nrows A1 \<noteq> nrows A2" "nrows A1 \<noteq> 1" "nrows A2 \<noteq> 1"
  shows "(\<exists>e. specs geev fsum fdot lgraph A1 A2 = Inl e
              \<and> compare_pair geev fsum fdot lgraph A1 A2 name = ([], Some e))
         \<or> (\<exists>sp. specs geev fsum fdot lgraph A1 A2 = Inr sp
              \<and> compare_pair geev fsum fdot lgraph A1 A2 name = ([CHR 0x0A # name], Some ValueError))"
proof (cases "specs geev fsum fdot lgraph A1 A2")
  case (Inl e)
  then show ?thesis by (simp add: compare_pair_def to_adj_def)
next
  case (Inr sp)
  from specs_Inr[OF Inr] obtain s1 s2 rest where
    sp: "sp = (rep_names ! 0, s1, s2) # rest" and
    s1: "sorted_eigvals geev A1 = Inr s1" and
    s2: "sorted_eigvals geev A2 = Inr s2"
    by blast
  have len: "length s1 = nrows A1" "length s2 = nrows A2"
    using s1 s2 by (simp_all add: sorted_eigvals_length)
  have "allclose s1 s2 = Inl ValueError"
    using allclose_length_mismatch[of s1 s2] assms by (simp add: len)
  then have "report_loop sp [CHR 0x0A # name] = ([CHR 0x0A # name], Some ValueError)"
    by (simp add: sp)
  then show ?thesis by (simp add: compare_pair_def to_adj_def Inr)
qed

text \<open>
  C1, as the code behaves. The notebook has no length check; spectra of different
  lengths meet numpy's broadcasting. When one spectrum has length 1 its single value is
  compared with every value of the other and the comparison returns that result; for any
  other pair of different lengths \<^verbatim>\<open>np.allclose\<close> raises ValueError. Accordingly
  \<open>compare_pair\<close> on two matrices of different dimensions, neither of them 1, always
  ends in an exception and prints no verdict: either a spectrum cannot be computed and
  nothing at all is printed, or the header line is printed and the first comparison
  raises ValueError.
\<close>

theorem length_mismatch_behaviour:
  "(length s1 \<noteq> length s2 \<longrightarrow>
      allclose s1 s2 =
        (if length s1 = 1 then Inr (list_all (isclose (hd s1)) s2)
         else if length s2 = 1 then Inr (list_all (\<lambda>a. isclose a (hd s2)) s1)
         else Inl ValueError))
   \<and> (nrows A1 \<noteq> nrows A2 \<and> nrows A1 \<noteq> 1 \<and> nrows A2 \<noteq> 1 \<longrightarrow>
        (\<exists>e. specs geev fsum fdot lgraph A1 A2 = Inl e
              \<and> compare_pair geev fsum fdot lgraph A1 A2 name = ([], Some e))
        \<or> (\<exists>sp. specs geev fsum fdot lgraph A1 A2 = Inr sp
              \<and> compare_pair geev fsum fdot lgraph A1 A2 name
                  = ([CHR 0x0A # name], Some ValueError)))"
  using allclose_length_mismatch[of s1 s2]
    compare_pair_size_mismatch[of A1 A2 geev fsum fdot lgraph name]
  by (intro conjI impI) simp_all

theorem length_mismatch_behaviour_witness:
  "length [1, 2 :: real] \<noteq> length [1, 2, 3 :: real]
   \<and> allclose [1, 2] [1, 2, 3] = Inl ValueError
   \<and> nrows (iarr [[0, 0], [0, 0]]) \<noteq> nrows (iarr [[0, 0, 0], [0, 0, 0], [0, 0, 0]])
   \<and> nrows (iarr [[0, 0], [0, 0]]) \<noteq> 1
   \<and> nrows (iarr [[0, 0, 0], [0, 0, 0], [0, 0, 0]]) \<noteq> 1
   \<and> ((\<exists>e. compare_pair tri_geev seq_sum seq_dot line_graph_adj (iarr [[0, 0], [0, 0]])
              (iarr [[0, 0, 0], [0, 0, 0], [0, 0, 0]]) ''isolated'' = ([], Some e))
        \<or> compare_pair tri_geev seq_sum seq_dot line_graph_adj (iarr [[0, 0], [0, 0]])
              (iarr [[0, 0, 0], [0, 0, 0], [0, 0, 0]]) ''isolated''
            = ([CHR 0x0A # ''isolated''], Some ValueError))"
proof -
  have n: "nrows (iarr [[0, 0], [0, 0]]) = 2"
    "nrows (iarr [[0, 0, 0], [0, 0, 0], [0, 0, 0]]) = 3"
    by (simp_all add: nrows_def iarr_def)
  have l: "length [1, 2 :: real] \<noteq> length [1, 2, 3 :: real]" by simp
  note t = length_mismatch_behaviour[of "[1, 2]" "[1, 2, 3]" "iarr [[0, 0], [0, 0]]"
      "iarr [[0, 0, 0], [0, 0, 0], [0, 0, 0]]" tri_geev seq_sum seq_dot line_graph_adj
      "''isolated''"]
  have a: "allclose [1, 2] [1, 2, 3] = Inl ValueError"
    using t[THEN conjunct1] by simp
  have b: "(\<exists>e. specs tri_geev seq_sum seq_dot line_graph_adj (iarr [[0, 0], [0, 0]])
                 (iarr [[0, 0, 0], [0, 0, 0], [0, 0, 0]]) = Inl e
              \<and> compare_pair tri_geev seq_sum seq_dot line_graph_adj (iarr [[0, 0], [0, 0]])
                 (iarr [[0, 0, 0], [0, 0, 0], [0, 0, 0]]) ''isolated'' = ([], Some e))
        \<or> (\<exists>sp. specs tri_geev seq_sum seq_dot line_graph_adj (iarr [[0, 0], [0, 0]])
                 (iarr [[0, 0, 0], [0, 0, 0], [0, 0, 0]]) = Inr sp
              \<and> compare_pair tri_geev seq_sum seq_dot line_graph_adj (iarr [[0, 0], [0, 0]])
                 (iarr [[0, 0, 0], [0, 0, 0], [0, 0, 0]]) ''isolated''
                  = ([CHR 0x0A # ''isolated''], Some ValueError))"
    using t[THEN conjunct2] by (simp add: n)
  show ?thesis
    using a b by (simp add: n) blast
qed

text \<open>
  Spectra of lengths 2 and 3 make the comparison raise, and a spectrum of length 1 is
  stretched: one isolated vertex against two is reported cospectral in all five
  representations.
\<close>

theorem size_mismatch_counterexample:
  "allclose [0, 0] [0, 0, 0] = Inl ValueError
   \<and> allclose [0] [0, 0] = Inr True
   \<and> compare_pair tri_geev seq_sum seq_dot line_graph_adj (iarr [[0]]) (iarr [[0, 0], [0, 0]]) ''isolated''
       = ((CHR 0x0A # ''isolated'') # map (\<lambda>k. report_line k True) rep_names, None)"
  by (simp add: report_defs array_defs isclose_zero upt_conv_Cons del: upt_Suc)




section \<open>The tolerance of the comparison\<close>

text \<open>The default tolerances are the doubles nearest to \<open>1e-8\<close> and \<open>1e-5\<close>.\<close>

lemma round64_1e8: "round64 (1 / 100000000) = Fin atol"
proof -
  have "round64 (1 / 100000000) = Fin (of_int 6044629098073146 * 2 powi (- 79))"
    by (rule round64_eval) (simp_all add: half_even_def power_int_minus)
  then show ?thesis by (simp add: atol_def power_int_minus)
qed

lemma round64_1e5: "round64 (1 / 100000) = Fin rtol"
proof -
  have "round64 (1 / 100000) = Fin (of_int 5902958103587057 * 2 powi (- 69))"
    by (rule round64_eval) (simp_all add: half_even_def power_int_minus)
  then show ?thesis by (simp add: rtol_def power_int_minus)
qed

text \<open>
  C5. On spectra of equal length the comparison raises nothing and returns true exactly
  when every pair \<open>(a, b)\<close> at the same index satisfies \<open>|a - b| \<le> atol + rtol * |b|\<close>,
  where \<open>atol\<close> and \<open>rtol\<close> are the float64 values of the literals \<open>1e-8\<close> and \<open>1e-5\<close>
  and the subtraction, the product and the sum are those of float64, each rounded to
  nearest.
\<close>

theorem allclose_tolerance:
  assumes "length s1 = length s2"
  shows "allclose s1 s2 =
     Inr (\<forall>k<length s1.
       fl_le (fl_abs (fl_sub (Fin (s1 ! k)) (Fin (s2 ! k))))
             (fl_add (round64 (1 / 10 ^ 8))
                     (fl_mul (round64 (1 / 10 ^ 5)) (fl_abs (Fin (s2 ! k))))))"
  using allclose_same_length[OF assms]
  by (simp add: isclose_def round64_1e8 round64_1e5)

theorem allclose_tolerance_witness:
  "length [3022314549036573 / 2 ^ 78 :: real] = length [0 :: real]
   \<and> allclose [3022314549036573 / 2 ^ 78] [0] = Inr True"
proof -
  have a: "round64 (3022314549036573 / 302231454903657293676544) = Fin atol"
    using round64_atol by (simp add: atol_def)
  have "fl_le (fl_abs (fl_sub (Fin (3022314549036573 / 2 ^ 78)) (Fin 0)))
         (fl_add (round64 (1 / 10 ^ 8)) (fl_mul (round64 (1 / 10 ^ 5)) (fl_abs (Fin 0))))"
    by (simp add: fl_sub_def round64_1e8 round64_1e5 round64_atol a) (simp add: atol_def)
  then show ?thesis
    using allclose_tolerance[of "[3022314549036573 / 2 ^ 78]" "[0]"] by simp
qed

text \<open>
  The doubles \<open>1e8\<close> and \<open>100001000.01\<close>: their difference, and the tolerance computed
  from each of them.
\<close>

lemma c9_b_double: "round64 (6710953509535089 / 67108864) = Fin (6710953509535089 / 67108864)"
  by (rule round64_rep[where r = 6710953509535089 and t = "- 26"])
     (simp_all add: power_int_minus)

lemma c9_a_double: "round64 100000000 = Fin 100000000"
  using round64_int[of 100000000] by simp

lemma c9_diff: "round64 (67109535089 / 67108864) = Fin (67109535089 / 67108864)"
  by (rule round64_rep[where r = 67109535089 and t = "- 26"])
     (simp_all add: power_int_minus)

lemma c9_diff_neg: "round64 (- (67109535089 / 67108864)) = Fin (- (67109535089 / 67108864))"
  by (rule round64_rep[where r = "- 67109535089" and t = "- 26"])
     (simp_all add: power_int_minus)

lemma c9_rel_b:
  "round64 (rtol * 6710953509535089 / 67108864) = Fin (8796180984017833 / 8796093022208)"
proof -
  have "round64 (rtol * 6710953509535089 / 67108864)
        = Fin (of_int 8796180984017833 * 2 powi (- 43))"
    by (rule round64_eval) (simp_all add: rtol_def half_even_def power_int_minus)
  then show ?thesis by (simp add: power_int_minus)
qed

lemma c9_tol_b:
  "round64 (atol + 8796180984017833 / 8796093022208) = Fin (4398090492052897 / 4398046511104)"
proof -
  have "round64 (atol + 8796180984017833 / 8796093022208)
        = Fin (of_int 8796180984105794 * 2 powi (- 43))"
    by (rule round64_eval) (simp_all add: atol_def half_even_def power_int_minus)
  then show ?thesis by (simp add: power_int_minus)
qed

lemma c9_rel_a:
  "round64 (rtol * 100000000) = Fin (8796093022208001 / 8796093022208)"
proof -
  have "round64 (rtol * 100000000) = Fin (of_int 8796093022208001 * 2 powi (- 43))"
    by (rule round64_eval) (simp_all add: rtol_def half_even_def power_int_minus)
  then show ?thesis by (simp add: power_int_minus)
qed

lemma c9_tol_a:
  "round64 (atol + 8796093022208001 / 8796093022208) = Fin (4398046511147981 / 4398046511104)"
proof -
  have "round64 (atol + 8796093022208001 / 8796093022208)
        = Fin (of_int 8796093022295962 * 2 powi (- 43))"
    by (rule round64_eval) (simp_all add: atol_def half_even_def power_int_minus)
  then show ?thesis by (simp add: power_int_minus)
qed

lemma c9_close: "isclose 100000000 (6710953509535089 / 67108864)"
  by (simp add: isclose_def fl_sub_def c9_diff_neg c9_rel_b c9_tol_b)

lemma c9_not_close: "\<not> isclose (6710953509535089 / 67108864) 100000000"
  by (simp add: isclose_def fl_sub_def c9_diff c9_rel_a c9_tol_a)

text \<open>
  C9. The comparison is not symmetric: the relative term scales with the second argument
  only, so two sorted spectra of equal length, both made of float64 values, can be close
  in one order and not in the other.
\<close>

theorem allclose_not_symmetric:
  "\<exists>s1 s2. sorted s1 \<and> sorted s2 \<and> length s1 = length s2 \<and>
     list_all (\<lambda>x. round64 x = Fin x) s1 \<and> list_all (\<lambda>x. round64 x = Fin x) s2 \<and>
     allclose s1 s2 = Inr True \<and> allclose s2 s1 = Inr False"
proof -
  let ?a = "[100000000] :: real list"
  let ?b = "[6710953509535089 / 67108864] :: real list"
  have "allclose ?a ?b = Inr True"
    using c9_close by (simp add: allclose_same_length)
  moreover have "allclose ?b ?a = Inr False"
    using c9_not_close by (simp add: allclose_same_length)
  ultimately show ?thesis
    using c9_a_double c9_b_double by (intro exI[of _ ?a] exI[of _ ?b]) simp
qed

section \<open>Row sums of the Laplacian\<close>



lemma list_all_is_int_map [simp]: "list_all is_int (map I ws)"
  by (simp add: list_all_iff)












text \<open>
  For a float64 array the subtraction rounds and the rows need not sum to zero. The
  array below holds the doubles \<open>0.1, 0.2, 0.3, 0.4\<close>; the rows of its Laplacian are
  \<open>[0.20000000000000004, -0.2]\<close> and \<open>[-0.3, 0.29999999999999993]\<close>, with sums \<open>2^-55\<close>
  and \<open>-2^-54\<close>.
\<close>

lemma decimal_literals:
  "round64 (1 / 10) = Fin (3602879701896397 / 36028797018963968)"
  "round64 (2 / 10) = Fin (3602879701896397 / 18014398509481984)"
  "round64 (3 / 10) = Fin (5404319552844595 / 18014398509481984)"
  "round64 (4 / 10) = Fin (3602879701896397 / 9007199254740992)"
proof -
  have "round64 (1 / 10) = Fin (of_int 7205759403792794 * 2 powi (- 56))"
    by (rule round64_eval) (simp_all add: half_even_def power_int_minus)
  then show "round64 (1 / 10) = Fin (3602879701896397 / 36028797018963968)"
    by (simp add: power_int_minus)
  have "round64 (2 / 10) = Fin (of_int 7205759403792794 * 2 powi (- 55))"
    by (rule round64_eval) (simp_all add: half_even_def power_int_minus)
  then show "round64 (2 / 10) = Fin (3602879701896397 / 18014398509481984)"
    by (simp add: power_int_minus)
  have "round64 (3 / 10) = Fin (of_int 5404319552844595 * 2 powi (- 54))"
    by (rule round64_eval) (simp_all add: half_even_def power_int_minus)
  then show "round64 (3 / 10) = Fin (5404319552844595 / 18014398509481984)"
    by (simp add: power_int_minus)
  have "round64 (4 / 10) = Fin (of_int 7205759403792794 * 2 powi (- 54))"
    by (rule round64_eval) (simp_all add: half_even_def power_int_minus)
  then show "round64 (4 / 10) = Fin (3602879701896397 / 9007199254740992)"
    by (simp add: power_int_minus)
qed












section \<open>The normalized Laplacian\<close>

lemma fl_mul_zero_left [simp]: "fl_mul (Fin 0) (Fin x) = Fin 0"
  by simp

lemma fl_mul_zero_right [simp]: "fl_mul (Fin x) (Fin 0) = Fin 0"
  by simp































lemma round64_one: "round64 1 = Fin 1"
  using round64_int[of 1] by simp





















end
